theory Spec2Isabelle
  imports Complex_Main
begin

section \<open>JavaScript values\<close>

text \<open>
  The accessory of \<^verbatim>\<open>FanAccessory.ts\<close> is untyped at run time: its cache holds whatever a
  message delivers. Values are therefore modelled as a datatype of JavaScript values.
  A number is an IEEE 754 double: a finite double is the rational it denotes, and there
  are the two infinities and NaN. Negative zero is identified with zero: every divisor
  in the program is the constant \<^verbatim>\<open>100\<close> or the configured \<^verbatim>\<open>MaxSpeed\<close>, and neither
  \<^verbatim>\<open>!==\<close>, a comparison, \<^verbatim>\<open>Boolean\<close> nor the wire format tells the two zeros apart.
\<close>

datatype jsnum = Fin rat | PosInf | NegInf | NaN

text \<open>
  An object is the list of its own properties in the order \<^verbatim>\<open>Object.keys\<close> yields them.
  \<open>JUndefined\<close> is the value of a missing property; a parsed payload never contains it,
  and its numbers are finite doubles.
\<close>

datatype jsval =
    JUndefined
  | JNull
  | JBool bool
  | JNum jsnum
  | JStr string
  | JArr "jsval list"
  | JObj "(string \<times> jsval) list"

datatype jserror = SyntaxError | TypeError

subsection \<open>Rounding to a double\<close>

text \<open>The number of binary digits of a positive integer.\<close>

function bits :: "int \<Rightarrow> nat" where
  "bits n = (if n \<le> 0 then 0 else Suc (bits (n div 2)))"
  by pat_completeness auto
termination
  by (relation "measure nat") auto

declare bits.simps [simp del]

text \<open>The integer \<open>e\<close> with \<open>2^e \<le> x < 2^(e+1)\<close>, for a positive \<open>x\<close>.\<close>

definition ilog2 :: "rat \<Rightarrow> int" where
  "ilog2 x = (if 1 \<le> x then int (bits \<lfloor>x\<rfloor>) - 1
              else - int (bits (\<lceil>1 / x\<rceil> - 1)))"

text \<open>The nearest integer, the even one of two that are equally near.\<close>

definition round_even :: "rat \<Rightarrow> int" where
  "round_even z =
     (let f = \<lfloor>z\<rfloor>; r = z - of_int f
      in if r < 1 / 2 then f else if 1 / 2 < r then f + 1 else if even f then f else f + 1)"

text \<open>
  The exponent of the unit in the last place of the doubles around a positive \<open>x\<close>: a
  double has 53 significant binary digits, and below \<open>2^-1022\<close> the spacing stays
  \<open>2^-1074\<close>.
\<close>

definition ulp_exp :: "rat \<Rightarrow> int" where
  "ulp_exp x = max (ilog2 x - 52) (- 1074)"

definition fl_pos :: "rat \<Rightarrow> rat" where
  "fl_pos x = of_int (round_even (x / 2 powi ulp_exp x)) * 2 powi ulp_exp x"

text \<open>
  The double nearest to a rational (round to nearest, ties to even), an infinity from
  \<open>2^1024\<close> on: the value of every arithmetic operation on finite doubles.
\<close>

definition fl :: "rat \<Rightarrow> jsnum" where
  "fl x =
     (if x = 0 then Fin 0
      else if 2 ^ 1024 \<le> fl_pos \<bar>x\<bar> then (if 0 < x then PosInf else NegInf)
      else Fin (sgn x * fl_pos \<bar>x\<bar>))"

subsection \<open>Operators\<close>

fun js_sgn :: "jsnum \<Rightarrow> int" where
  "js_sgn (Fin a) = (if 0 < a then 1 else if a < 0 then - 1 else 0)"
| "js_sgn PosInf = 1"
| "js_sgn NegInf = - 1"
| "js_sgn NaN = 0"

text \<open>The infinity of a sign; the sign 0 stands for \<^verbatim>\<open>0 * Infinity\<close> and \<^verbatim>\<open>0 / 0\<close>.\<close>

definition inf_of :: "int \<Rightarrow> jsnum" where
  "inf_of s = (if 0 < s then PosInf else if s < 0 then NegInf else NaN)"

text \<open>\<^verbatim>\<open>x * y\<close>.\<close>

fun js_mul :: "jsnum \<Rightarrow> jsnum \<Rightarrow> jsnum" where
  "js_mul NaN y = NaN"
| "js_mul x NaN = NaN"
| "js_mul (Fin a) (Fin b) = fl (a * b)"
| "js_mul x y = inf_of (js_sgn x * js_sgn y)"

text \<open>
  \<^verbatim>\<open>x / y\<close>. Division by zero does not raise in JavaScript: it gives an infinity, or
  NaN for \<^verbatim>\<open>0 / 0\<close>.
\<close>

fun js_div :: "jsnum \<Rightarrow> jsnum \<Rightarrow> jsnum" where
  "js_div NaN y = NaN"
| "js_div x NaN = NaN"
| "js_div (Fin a) (Fin b) = (if b = 0 then inf_of (js_sgn (Fin a)) else fl (a / b))"
| "js_div (Fin a) y = Fin 0"
| "js_div x (Fin b) = inf_of (js_sgn x * (if b < 0 then - 1 else 1))"
| "js_div x y = NaN"

text \<open>\<^verbatim>\<open>Math.ceil(x)\<close>; the ceiling of a double is a double.\<close>

fun js_ceil :: "jsnum \<Rightarrow> jsnum" where
  "js_ceil (Fin a) = Fin (of_int \<lceil>a\<rceil>)"
| "js_ceil x = x"

text \<open>\<^verbatim>\<open>x < y\<close> and \<^verbatim>\<open>x <= y\<close>: false when an operand is NaN.\<close>

fun js_less :: "jsnum \<Rightarrow> jsnum \<Rightarrow> bool" where
  "js_less NaN y = False"
| "js_less x NaN = False"
| "js_less (Fin a) (Fin b) = (a < b)"
| "js_less x NegInf = False"
| "js_less NegInf y = True"
| "js_less PosInf y = False"
| "js_less x PosInf = True"

fun js_le :: "jsnum \<Rightarrow> jsnum \<Rightarrow> bool" where
  "js_le NaN y = False"
| "js_le x NaN = False"
| "js_le x y = (x = y \<or> js_less x y)"

text \<open>\<^verbatim>\<open>a !== b\<close> on numbers: NaN differs from every number, itself included.\<close>

fun strict_ne :: "jsnum \<Rightarrow> jsnum \<Rightarrow> bool" where
  "strict_ne NaN b = True"
| "strict_ne a NaN = True"
| "strict_ne a b = (a \<noteq> b)"

text \<open>\<^verbatim>\<open>Boolean(v)\<close>.\<close>

fun ToBoolean :: "jsval \<Rightarrow> bool" where
  "ToBoolean JUndefined = False"
| "ToBoolean JNull = False"
| "ToBoolean (JBool b) = b"
| "ToBoolean (JNum n) = (n \<noteq> Fin 0 \<and> n \<noteq> NaN)"
| "ToBoolean (JStr s) = (s \<noteq> [])"
| "ToBoolean (JArr xs) = True"
| "ToBoolean (JObj kvs) = True"

text \<open>
  The conversion of an operand of \<^verbatim>\<open>*\<close> to a number. On strings, arrays and objects the
  engine parses text or calls the object's conversion methods (and may raise); that part
  is a builtin and is taken as the parameter \<open>ext\<close>.
\<close>

fun ToNumber :: "(jsval \<Rightarrow> jserror + jsnum) \<Rightarrow> jsval \<Rightarrow> jserror + jsnum" where
  "ToNumber ext JUndefined = Inr NaN"
| "ToNumber ext JNull = Inr (Fin 0)"
| "ToNumber ext (JBool b) = Inr (Fin (if b then 1 else 0))"
| "ToNumber ext (JNum n) = Inr n"
| "ToNumber ext v = ext v"

text \<open>\<^verbatim>\<open>x === undefined || x === null\<close>: reading a property of such a value raises.\<close>

fun nullish :: "jsval \<Rightarrow> bool" where
  "nullish JUndefined = True"
| "nullish JNull = True"
| "nullish v = False"

text \<open>
  \<^verbatim>\<open>x.p\<close> for a value \<open>x\<close> that is neither undefined nor null, and a property name that
  is not an index, \<^verbatim>\<open>length\<close> or a member of a prototype (the program reads
  \<^verbatim>\<open>devicesn\<close>, \<^verbatim>\<open>method\<close>, \<^verbatim>\<open>reported\<close>, \<^verbatim>\<open>poweron\<close>, \<^verbatim>\<open>windlevel\<close> and \<^verbatim>\<open>shakehorizon\<close>).
\<close>

fun js_get :: "jsval \<Rightarrow> string \<Rightarrow> jsval" where
  "js_get (JObj kvs) p = (case map_of kvs p of Some v \<Rightarrow> v | None \<Rightarrow> JUndefined)"
| "js_get v p = JUndefined"

text \<open>
  \<^verbatim>\<open>Object.keys(x)[0]\<close>: raises on undefined and null; a boolean or a number has no keys;
  the keys of a string or an array are its indices; \<open>None\<close> is \<^verbatim>\<open>undefined\<close>.
\<close>

fun first_key :: "jsval \<Rightarrow> jserror + string option" where
  "first_key JUndefined = Inl TypeError"
| "first_key JNull = Inl TypeError"
| "first_key (JBool b) = Inr None"
| "first_key (JNum n) = Inr None"
| "first_key (JStr s) = Inr (if s = [] then None else Some ''0'')"
| "first_key (JArr xs) = Inr (if xs = [] then None else Some ''0'')"
| "first_key (JObj kvs) = Inr (case kvs of [] \<Rightarrow> None | (k, v) # rest \<Rightarrow> Some k)"

section \<open>The accessory\<close>

text \<open>The cached copy of the latest fan states (\<^verbatim>\<open>fanState\<close>, lines 13 to 18).\<close>

record fan_state =
  On :: jsval
  Speed :: jsnum
  Swing :: jsval
  MaxSpeed :: jsnum

text \<open>
  A control message as built before \<^verbatim>\<open>JSON.stringify\<close>; \<open>meth\<close> is its property
  \<^verbatim>\<open>method\<close>, and \<open>params\<close> lists the properties in the order they are written.
\<close>

record control_message =
  devicesn :: string
  meth :: string
  params :: "(string \<times> jsval) list"
  timestamp :: int

text \<open>
  The fields of the class the handlers use: the serial \<^verbatim>\<open>accessory.context.device.sn\<close>,
  the cache, and the open socket \<^verbatim>\<open>ws\<close>, modelled by the messages sent on it so far, in
  order; \<^verbatim>\<open>ws.send\<close> appends one. The clock \<^verbatim>\<open>Date.now()\<close> is the parameter \<open>now\<close> of
  each handler. Calls to the logger have no effect on these fields and are left out.
\<close>

record FanAccessory =
  sn :: string
  fanState :: fan_state
  ws :: "control_message list"

definition send :: "control_message \<Rightarrow> FanAccessory \<Rightarrow> FanAccessory" where
  "send m this = this\<lparr>ws := ws this @ [m]\<rparr>"

subsection \<open>Outbound handlers\<close>

text \<open>\<^verbatim>\<open>handleActiveSet\<close>, lines 101 to 113.\<close>

definition handleActiveSet :: "int \<Rightarrow> jsval \<Rightarrow> FanAccessory \<Rightarrow> FanAccessory" where
  "handleActiveSet now v this =
     (if On (fanState this) \<noteq> JBool (ToBoolean v)
      then send \<lparr>devicesn = sn this, meth = ''control'',
                 params = [(''poweron'', JBool (ToBoolean v))], timestamp = now\<rparr> this
      else this)"

definition handleActiveGet :: "FanAccessory \<Rightarrow> jsval" where
  "handleActiveGet this = On (fanState this)"

text \<open>The chain of \<^verbatim>\<open>if\<close> and \<^verbatim>\<open>else if\<close> of lines 126 to 140.\<close>

definition snap :: "jsnum \<Rightarrow> jsnum" where
  "snap converted =
     (if js_less (Fin 10) converted \<and> js_le converted (Fin 30) then Fin 20
      else if js_less (Fin 30) converted \<and> js_le converted (Fin 50) then Fin 40
      else if js_less (Fin 50) converted \<and> js_le converted (Fin 70) then Fin 60
      else if js_less (Fin 70) converted \<and> js_le converted (Fin 90) then Fin 80
      else if js_less (Fin 90) converted \<and> js_le converted (Fin 100) then Fin 100
      else converted)"

text \<open>
  \<^verbatim>\<open>setRotationSpeed\<close>, lines 121 to 161, for a number \<open>v\<close>.
\<close>

definition setRotationSpeed :: "int \<Rightarrow> jsnum \<Rightarrow> FanAccessory \<Rightarrow> FanAccessory" where
  "setRotationSpeed now v this =
     (let curr = js_ceil (js_div (js_mul (Speed (fanState this)) (MaxSpeed (fanState this)))
                   (Fin 100));
          converted = snap (js_ceil (js_div (js_mul v (MaxSpeed (fanState this))) (Fin 100)));
          this' =
            (if strict_ne curr converted then
               (if strict_ne converted (Fin 0)
                then send \<lparr>devicesn = sn this, meth = ''control'',
                           params = [(''poweron'', JBool True), (''windlevel'', JNum converted)],
                           timestamp = now\<rparr> this
                else this)
             else this)
      in this'\<lparr>fanState := (fanState this')\<lparr>Speed := v\<rparr>\<rparr>)"

definition getRotationSpeed :: "FanAccessory \<Rightarrow> jsnum" where
  "getRotationSpeed this = Speed (fanState this)"

text \<open>\<^verbatim>\<open>setSwingMode\<close>, lines 168 to 175.\<close>

definition setSwingMode :: "int \<Rightarrow> jsval \<Rightarrow> FanAccessory \<Rightarrow> FanAccessory" where
  "setSwingMode now v this =
     send \<lparr>devicesn = sn this, meth = ''control'',
           params = [(''shakehorizon'', JBool (ToBoolean v))], timestamp = now\<rparr> this"

definition getSwingMode :: "FanAccessory \<Rightarrow> jsval" where
  "getSwingMode this = Swing (fanState this)"

subsection \<open>The message listener\<close>

text \<open>
  The \<^verbatim>\<open>switch\<close> of lines 80 to 94, given the value of \<^verbatim>\<open>data.method\<close> and of
  \<^verbatim>\<open>data.reported\<close>. The result is the cache when the statement ends, and the exception
  if it ended by one.
\<close>

definition apply_reported ::
  "(jsval \<Rightarrow> jserror + jsnum) \<Rightarrow> jsval \<Rightarrow> jsval \<Rightarrow> fan_state \<Rightarrow> fan_state \<times> jserror option" where
  "apply_reported ext m reported fs =
     (case first_key reported of
        Inl e \<Rightarrow> (fs, Some e)
      | Inr k \<Rightarrow>
          if k = Some ''poweron'' then (fs\<lparr>On := js_get reported ''poweron''\<rparr>, None)
          else if k = Some ''windlevel'' then
            (if m = JStr ''report'' then
               (case ToNumber ext (js_get reported ''windlevel'') of
                  Inl e \<Rightarrow> (fs, Some e)
                | Inr x \<Rightarrow>
                    (fs\<lparr>Speed := js_ceil (js_div (js_mul x (Fin 100)) (MaxSpeed fs))\<rparr>,
                     None))
             else (fs, None))
          else if k = Some ''shakehorizon'' then
            (fs\<lparr>Swing := js_get reported ''shakehorizon''\<rparr>, None)
          else (fs, None))"

text \<open>
  The listener of lines 71 to 97. \<open>payload\<close> is what \<^verbatim>\<open>JSON.parse(message.data)\<close> gives:
  \<open>None\<close> when it raises \<^verbatim>\<open>SyntaxError\<close>, the parsed value otherwise. The result is the
  accessory when the listener ends, and the exception that left it, if any.
\<close>

definition on_message ::
  "(jsval \<Rightarrow> jserror + jsnum) \<Rightarrow> jsval option \<Rightarrow> FanAccessory \<Rightarrow> FanAccessory \<times> jserror option" where
  "on_message ext payload this =
     (case payload of
        None \<Rightarrow> (this, Some SyntaxError)
      | Some data \<Rightarrow>
          if nullish data then (this, Some TypeError)
          else if js_get data ''devicesn'' = JStr (sn this) then
            (if js_get data ''method'' = JStr ''control-report''
                \<or> js_get data ''method'' = JStr ''control-reply''
                \<or> js_get data ''method'' = JStr ''report''
             then
               (case apply_reported ext (js_get data ''method'') (js_get data ''reported'') (fanState this) of
                  (fs, exn) \<Rightarrow> (this\<lparr>fanState := fs\<rparr>, exn))
             else (this, None))
          else (this, None))"

section \<open>Concrete instances\<close>

text \<open>
  A fan with six levels whose cache holds power on, 17 percent and oscillation on, and
  which has sent nothing yet.
\<close>

definition fan6 :: FanAccessory where
  "fan6 = \<lparr>sn = ''SN1'',
            fanState = \<lparr>On = JBool True, Speed = Fin 17, Swing = JBool True,
                        MaxSpeed = Fin 6\<rparr>,
            ws = []\<rparr>"

text \<open>The parsed form of a report on the wire, with the reported properties \<open>kvs\<close>.\<close>

definition report_of :: "string \<Rightarrow> string \<Rightarrow> (string \<times> jsval) list \<Rightarrow> jsval" where
  "report_of serial m kvs =
     JObj [(''devicesn'', JStr serial), (''method'', JStr m), (''reported'', JObj kvs)]"

text \<open>
  A conversion for the concrete instances, none of which converts a string, an array or
  an object.
\<close>

definition ext_nan :: "jsval \<Rightarrow> jserror + jsnum" where
  "ext_nan v = Inr NaN"

text \<open>The range of the speed the accessory exposes: an integer from 0 to 100.\<close>

definition percent_range :: "jsnum \<Rightarrow> bool" where
  "percent_range x =
     (case x of Fin p \<Rightarrow> of_int \<lfloor>p\<rfloor> = p \<and> 0 \<le> p \<and> p \<le> 100 | _ \<Rightarrow> False)"

section \<open>Rounding facts\<close>

lemma bits_bounds:
  "0 < n \<Longrightarrow> 2 ^ (bits n - 1) \<le> n \<and> n < 2 ^ bits n"
proof (induction n rule: bits.induct)
  case (1 n)
  show ?case
  proof (cases "n = 1")
    case True
    then show ?thesis by (simp add: bits.simps)
  next
    case False
    with "1.prems" have pos: "0 < n div 2" by simp
    with "1.IH" "1.prems" have ih: "2 ^ (bits (n div 2) - 1) \<le> n div 2" "n div 2 < 2 ^ bits (n div 2)"
      by simp_all
    have b: "bits n = Suc (bits (n div 2))"
      using "1.prems" by (simp add: bits.simps)
    have nz: "bits (n div 2) \<noteq> 0"
      using pos by (simp add: bits.simps)
    then have "(2::int) ^ bits (n div 2) = 2 * 2 ^ (bits (n div 2) - 1)"
      by (cases "bits (n div 2)") simp_all
    with ih show ?thesis
      unfolding b by (simp) linarith
  qed
qed

lemma bits_pos: "0 < n \<Longrightarrow> 0 < bits n"
  by (simp add: bits.simps)

lemma ilog2_bounds:
  assumes "0 < x"
  shows "2 powi ilog2 x \<le> x \<and> x < 2 powi (ilog2 x + 1)"
proof (cases "1 \<le> x")
  case True
  define N where "N = \<lfloor>x\<rfloor>"
  have N: "0 < N" "of_int N \<le> x" "x < of_int N + 1"
    using True by (simp_all add: N_def) linarith
  define c where "c = bits N"
  from bits_bounds [OF N(1)] bits_pos [OF N(1)]
  have c: "2 ^ (c - 1) \<le> N" "N < 2 ^ c" "0 < c" by (simp_all add: c_def)
  have "ilog2 x = int (c - 1)" "ilog2 x + 1 = int c"
    using True c(3) by (simp_all add: ilog2_def N_def c_def)
  then have e: "(2::rat) powi ilog2 x = 2 ^ (c - 1)" "(2::rat) powi (ilog2 x + 1) = 2 ^ c"
    by (simp_all only: power_int_of_nat)
  have "(2::rat) ^ (c - 1) \<le> of_int N"
    using c(1) by (metis of_int_le_iff of_int_numeral of_int_power)
  moreover have "of_int N + 1 \<le> (2::rat) ^ c"
  proof -
    from c(2) have "N + 1 \<le> 2 ^ c" by simp
    then have "of_int (N + 1) \<le> (of_int (2 ^ c) :: rat)" by (simp only: of_int_le_iff)
    then show ?thesis by simp
  qed
  ultimately show ?thesis
    using N unfolding e by linarith
next
  case False
  define y where "y = 1 / x"
  have y: "1 < y" "x = 1 / y" using False assms by (simp_all add: y_def)
  define K where "K = \<lceil>y\<rceil> - 1"
  have K: "0 < K" "of_int K < y" "y \<le> of_int K + 1"
    using y(1) by (simp_all add: K_def) linarith+
  define c where "c = bits K"
  from bits_bounds [OF K(1)] bits_pos [OF K(1)]
  have c: "2 ^ (c - 1) \<le> K" "K < 2 ^ c" "0 < c" by (simp_all add: c_def)
  have "ilog2 x = - int c" "ilog2 x + 1 = - int (c - 1)"
    using False c(3) by (simp_all add: ilog2_def K_def c_def y_def)
  then have e: "(2::rat) powi ilog2 x = 1 / 2 ^ c" "(2::rat) powi (ilog2 x + 1) = 1 / 2 ^ (c - 1)"
    by (simp_all only: power_int_minus_divide power_int_of_nat)
  have lo: "(2::rat) ^ (c - 1) < y"
  proof -
    have "(2::rat) ^ (c - 1) \<le> of_int K"
      using c(1) by (metis of_int_le_iff of_int_numeral of_int_power)
    with K(2) show ?thesis by linarith
  qed
  have hi: "y \<le> (2::rat) ^ c"
  proof -
    from c(2) have "K + 1 \<le> 2 ^ c" by simp
    then have "of_int (K + 1) \<le> (of_int (2 ^ c) :: rat)" by (simp only: of_int_le_iff)
    with K(3) show ?thesis by simp
  qed
  have "1 / (2::rat) ^ c \<le> 1 / y"
    using hi y(1) by (intro divide_left_mono) simp_all
  moreover have "1 / y < 1 / (2::rat) ^ (c - 1)"
    using lo y(1) by (intro divide_strict_left_mono) simp_all
  moreover have "1 / y = x" by (simp add: y_def)
  ultimately have "1 / (2::rat) ^ c \<le> x \<and> x < 1 / (2::rat) ^ (c - 1)"
    by simp
  then show ?thesis
    unfolding e .
qed

lemma round_even_of_int: "round_even (of_int k) = k"
  by (simp add: round_even_def)

lemma round_even_error: "\<bar>of_int (round_even z) - z\<bar> \<le> 1 / 2"
proof -
  have "of_int \<lfloor>z\<rfloor> \<le> z" "z < of_int \<lfloor>z\<rfloor> + 1"
    by linarith+
  then show ?thesis
    unfolding round_even_def Let_def by (simp split: if_splits)
qed

lemma ulp_exp_cases:
  "ulp_exp x = ilog2 x - 52 \<or> (ulp_exp x = - 1074 \<and> ilog2 x - 52 \<le> - 1074)"
  by (auto simp: ulp_exp_def max_def)

lemma fl_pos_error:
  "\<bar>fl_pos x - x\<bar> \<le> 2 powi ulp_exp x / 2"
proof -
  let ?u = "(2::rat) powi ulp_exp x"
  have u: "0 < ?u" by simp
  have "fl_pos x - x = (of_int (round_even (x / ?u)) - x / ?u) * ?u"
    using u by (simp add: fl_pos_def field_simps)
  then have "\<bar>fl_pos x - x\<bar> = \<bar>of_int (round_even (x / ?u)) - x / ?u\<bar> * ?u"
    using u by (simp add: abs_mult)
  also have "\<dots> \<le> (1 / 2) * ?u"
    using round_even_error [of "x / ?u"] u by (intro mult_right_mono) simp_all
  finally show ?thesis by simp
qed

lemma fl_pos_int:
  assumes "0 < n" "n < 2 ^ 53"
  shows "fl_pos (of_int n) = of_int n"
proof -
  let ?x = "of_int n :: rat"
  have "2 powi ilog2 ?x \<le> ?x" using ilog2_bounds [of ?x] assms by simp
  also have "?x < 2 powi 53" using assms by (simp flip: of_int_power)
  finally have "ilog2 ?x < 53"
    by (rule power_int_le_imp_less_exp [rotated]) simp_all
  then have p: "ulp_exp ?x \<le> 0" by (simp add: ulp_exp_def)
  define k where "k = nat (- ulp_exp ?x)"
  have "ulp_exp ?x = - int k" using p by (simp add: k_def)
  then have pk: "(2::rat) powi ulp_exp ?x = 1 / 2 ^ k"
    by (simp add: power_int_minus_divide)
  have "?x / (2 powi ulp_exp ?x) = of_int (n * 2 ^ k)"
    by (simp add: pk)
  then have "round_even (?x / (2 powi ulp_exp ?x)) = n * 2 ^ k"
    by (simp only: round_even_of_int)
  then show ?thesis
    by (simp add: fl_pos_def pk)
qed

lemma half_ulp_quotient:
  fixes a b :: int
  assumes "0 < a" "a < 2 ^ 53" "0 < b" "b < 2 ^ 1024"
  shows "2 powi ulp_exp (of_int a / of_int b) / 2 < 1 / (of_int b :: rat)"
proof -
  let ?q = "of_int a / of_int b :: rat"
  have q: "0 < ?q" using assms by simp
  have b: "0 < (of_int b :: rat)" using assms by simp
  from ulp_exp_cases [of ?q] show ?thesis
  proof
    assume u: "ulp_exp ?q = ilog2 ?q - 52"
    have "(2::rat) powi (ilog2 ?q - 52) = 2 powi ilog2 ?q / 2 ^ 52"
      by (simp add: power_int_diff)
    also have "\<dots> \<le> ?q / 2 ^ 52"
      using ilog2_bounds [OF q] by (simp add: divide_right_mono)
    finally have "2 powi ulp_exp ?q / 2 \<le> ?q / 2 ^ 53"
      unfolding u by simp
    also have "?q / 2 ^ 53 = (of_int a / 2 ^ 53) / of_int b"
      by simp
    also have "\<dots> < 1 / of_int b"
    proof -
      have "(of_int a :: rat) < of_int (2 ^ 53)" using assms(2) by (simp only: of_int_less_iff)
      then have c: "(of_int a :: rat) / 2 ^ 53 < 1" by simp
      show ?thesis by (rule divide_strict_right_mono [OF c b])
    qed
    finally show ?thesis .
  next
    assume u: "ulp_exp ?q = - 1074 \<and> ilog2 ?q - 52 \<le> - 1074"
    have "(of_int b :: rat) < of_int (2 ^ 1024)" using assms(4) by (simp only: of_int_less_iff)
    also have "\<dots> < 2 ^ 1075" by simp
    finally have "1 / (2::rat) ^ 1075 < 1 / of_int b"
      using b by (intro divide_strict_left_mono) simp_all
    moreover have "(2::rat) powi (- 1074) / 2 = 1 / 2 ^ 1075"
      by (simp add: power_int_minus_divide)
    ultimately show ?thesis using u by simp
  qed
qed

lemma fl_pos_quotient:
  fixes a b :: int
  assumes "0 < a" "a < 2 ^ 53" "0 < b" "b < 2 ^ 1024"
  shows "\<lfloor>fl_pos (of_int a / of_int b)\<rfloor> = \<lfloor>of_int a / of_int b :: rat\<rfloor>
       \<and> \<lceil>fl_pos (of_int a / of_int b)\<rceil> = \<lceil>of_int a / of_int b :: rat\<rceil>"
proof (cases "b dvd a")
  case True
  then obtain k where k: "a = b * k" ..
  with assms(1,3) have kpos: "0 < k" by (simp add: zero_less_mult_iff)
  have "k \<le> a" using k assms(3) kpos by (simp add: mult_le_cancel_right1)
  with assms(2) have "k < 2 ^ 53" by linarith
  moreover have "(of_int a / of_int b :: rat) = of_int k"
    using k assms(3) by simp
  ultimately show ?thesis
    using fl_pos_int [OF kpos] by simp
next
  case False
  let ?q = "of_int a / of_int b :: rat"
  let ?y = "fl_pos ?q"
  define n where "n = a div b"
  define r where "r = a mod b"
  have "a mod b \<noteq> 0" using False by (simp add: dvd_eq_mod_eq_0)
  moreover have "0 \<le> a mod b" "a mod b < b" using assms(3) by simp_all
  ultimately have r: "1 \<le> r" "r \<le> b - 1"
    unfolding r_def by linarith+
  have b: "0 < (of_int b :: rat)" using assms(3) by simp
  have a: "a = n * b + r" by (simp add: n_def r_def)
  have q: "?q = of_int n + of_int r / of_int b"
    unfolding a using b by (simp add: field_simps)
  have lo: "1 / of_int b \<le> ?q - of_int n"
    using r(1) b unfolding q by (simp add: divide_right_mono)
  have hi: "1 / of_int b \<le> of_int n + 1 - ?q"
  proof -
    have "of_int n + 1 - ?q = (of_int b - of_int r) / of_int b"
      unfolding q using b by (simp add: field_simps)
    moreover have "(1::rat) \<le> of_int b - of_int r"
    proof -
      from r(2) have "(of_int r :: rat) \<le> of_int (b - 1)" by (simp only: of_int_le_iff)
      then show ?thesis by simp
    qed
    ultimately show ?thesis using b by (simp add: divide_right_mono)
  qed
  have "\<bar>?y - ?q\<bar> < 1 / of_int b"
    using fl_pos_error [of ?q] half_ulp_quotient [OF assms] by linarith
  with lo hi have y: "of_int n < ?y" "?y < of_int n + 1" by linarith+
  have "0 < 1 / (of_int b :: rat)" using b by simp
  with lo hi have qn: "of_int n < ?q" "?q < of_int n + 1"
    by linarith+
  have "\<lfloor>?y\<rfloor> = n" using y by linarith
  moreover have "\<lfloor>?q\<rfloor> = n" using qn by linarith
  moreover have "\<lceil>?y\<rceil> = n + 1" using y by linarith
  moreover have "\<lceil>?q\<rceil> = n + 1" using qn by linarith
  ultimately show ?thesis by simp
qed


lemma fl_int:
  assumes "\<bar>n\<bar> < 2 ^ 53"
  shows "fl (of_int n) = Fin (of_int n)"
proof (cases "n = 0")
  case True
  then show ?thesis by (simp add: fl_def)
next
  case False
  have abs: "\<bar>of_int n :: rat\<bar> = of_int \<bar>n\<bar>" by simp
  have pos: "0 < \<bar>n\<bar>" using False by simp
  have exact: "fl_pos (of_int \<bar>n\<bar>) = of_int \<bar>n\<bar>"
    by (rule fl_pos_int [OF pos assms])
  have "(of_int \<bar>n\<bar> :: rat) < of_int (2 ^ 53)"
    using assms by (simp only: of_int_less_iff)
  also have "\<dots> < 2 ^ 1024" by simp
  finally have small: "\<not> 2 ^ 1024 \<le> (of_int \<bar>n\<bar> :: rat)" by simp
  have "sgn (of_int n :: rat) * of_int \<bar>n\<bar> = of_int n"
    by (simp add: sgn_if)
  with False small show ?thesis
    unfolding fl_def abs exact by simp
qed

lemma fl_quotient_ceiling:
  fixes a b :: int
  assumes "\<bar>a\<bar> < 2 ^ 53" "b \<noteq> 0" "\<bar>b\<bar> < 2 ^ 1024"
  shows "js_ceil (fl (of_int a / of_int b)) = Fin (of_int \<lceil>of_int a / of_int b :: rat\<rceil>)"
proof (cases "a = 0")
  case True
  then show ?thesis by (simp add: fl_def)
next
  case False
  define x :: rat where "x = of_int a / of_int b"
  define q :: rat where "q = of_int \<bar>a\<bar> / of_int \<bar>b\<bar>"
  have pos: "0 < \<bar>a\<bar>" "0 < \<bar>b\<bar>" using False assms(2) by simp_all
  have abs: "\<bar>x\<bar> = q" by (simp add: x_def q_def)
  have x0: "x \<noteq> 0" using False assms(2) by (simp add: x_def)
  from fl_pos_quotient [OF pos(1) assms(1) pos(2) assms(3)]
  have fc: "\<lfloor>fl_pos q\<rfloor> = \<lfloor>q\<rfloor>" "\<lceil>fl_pos q\<rceil> = \<lceil>q\<rceil>"
    unfolding q_def by blast+
  have "q \<le> of_int \<bar>a\<bar>"
  proof -
    have "(1::rat) \<le> of_int \<bar>b\<bar>" using pos(2) by (simp add: order_less_le)
    then have "of_int \<bar>a\<bar> / of_int \<bar>b\<bar> \<le> (of_int \<bar>a\<bar> :: rat) / 1"
      by (intro divide_left_mono) simp_all
    then show ?thesis by (simp add: q_def)
  qed
  then have "\<lfloor>q\<rfloor> \<le> \<bar>a\<bar>" by (simp add: floor_le_iff)
  with fc(1) assms(1) have "\<lfloor>fl_pos q\<rfloor> < 2 ^ 53" by linarith
  then have "fl_pos q < of_int (2 ^ 53)" by (simp only: floor_less_iff)
  also have "\<dots> < (2::rat) ^ 1024" by simp
  finally have small: "\<not> 2 ^ 1024 \<le> fl_pos q" by simp
  have fl: "fl x = Fin (sgn x * fl_pos q)"
    using x0 small unfolding fl_def abs by simp
  have "js_ceil (fl x) = Fin (of_int \<lceil>x\<rceil>)"
  proof (cases "0 < x")
    case True
    then have "sgn x = 1" "q = x" using abs by simp_all
    with fc(2) show ?thesis unfolding fl by simp
  next
    case neg: False
    with x0 have "sgn x = - 1" "q = - x" using abs by (simp_all add: sgn_if)
    with fc(1) show ?thesis unfolding fl by (simp add: ceiling_def)
  qed
  then show ?thesis unfolding x_def .
qed

lemma ceiling_rat_real:
  "\<lceil>of_int a / of_int b :: rat\<rceil> = \<lceil>real_of_int a / real_of_int b\<rceil>"
proof -
  have "\<lfloor>of_int (- a) / of_int b :: rat\<rfloor> = \<lfloor>real_of_int (- a) / real_of_int b\<rfloor>"
    by (simp only: floor_divide_of_int_eq)
  then show ?thesis by (simp add: ceiling_def)
qed

text \<open>
  On integers the program's \<^verbatim>\<open>Math.ceil(l * k / m)\<close> is the ceiling of the quotient as
  long as the product is below \<open>2^53\<close> in magnitude.
\<close>

lemma ceil_quotient_exact:
  fixes l k m :: int
  assumes "\<bar>l * k\<bar> < 2 ^ 53" "m \<noteq> 0" "\<bar>m\<bar> < 2 ^ 1024"
  shows "js_ceil (js_div (js_mul (Fin (of_int l)) (Fin (of_int k))) (Fin (of_int m))) =
         Fin (of_int \<lceil>real_of_int (l * k) / real_of_int m\<rceil>)"
proof -
  have "js_mul (Fin (of_int l)) (Fin (of_int k)) = Fin (of_int (l * k))"
    using fl_int [OF assms(1)] by simp
  moreover have "js_div (Fin (of_int (l * k))) (Fin (of_int m)) =
      fl (of_int (l * k) / of_int m)"
    using assms(2) by simp
  moreover have "\<lceil>of_int (l * k) / of_int m :: rat\<rceil> = \<lceil>real_of_int (l * k) / real_of_int m\<rceil>"
    by (rule ceiling_rat_real)
  ultimately show ?thesis
    using fl_quotient_ceiling [OF assms] by simp
qed

text \<open>Beyond that magnitude the rounding of the product shows.\<close>

lemma rounding_beyond_2_53:
  "js_mul (Fin 360287970189641) (Fin 100) = Fin 36028797018964096"
  "js_ceil (js_div (js_mul (Fin 5920956124208825) (Fin 100)) (Fin 5920956124208825)) = Fin 101"
  by code_simp+

text \<open>The double written \<^verbatim>\<open>0.1\<close>.\<close>

lemma double_one_tenth:
  "fl (1 / 10) = Fin (3602879701896397 / 36028797018963968)"
  by code_simp

section \<open>Auxiliary facts\<close>

text \<open>A message for this device with a recognised method reaches the \<^verbatim>\<open>switch\<close>.\<close>

lemma on_message_matched:
  assumes "js_get data ''devicesn'' = JStr (sn this)"
    and "js_get data ''method'' = JStr ''control-report''
         \<or> js_get data ''method'' = JStr ''control-reply''
         \<or> js_get data ''method'' = JStr ''report''"
  shows "on_message ext (Some data) this =
         (this\<lparr>fanState :=
             fst (apply_reported ext (js_get data ''method'') (js_get data ''reported'')
                   (fanState this))\<rparr>,
          snd (apply_reported ext (js_get data ''method'') (js_get data ''reported'')
                (fanState this)))"
proof -
  have "\<not> nullish data" using assms(1) by (cases data) auto
  then show ?thesis using assms by (simp add: on_message_def case_prod_beta)
qed

text \<open>Every other parsed message leaves the accessory as it was.\<close>

lemma on_message_ignored:
  assumes "js_get data ''devicesn'' \<noteq> JStr (sn this)
         \<or> \<not> (js_get data ''method'' = JStr ''control-report''
              \<or> js_get data ''method'' = JStr ''control-reply''
              \<or> js_get data ''method'' = JStr ''report'')"
  shows "fst (on_message ext (Some data) this) = this"
    and "\<not> nullish data \<Longrightarrow> on_message ext (Some data) this = (this, None)"
  using assms by (auto simp: on_message_def)

lemma apply_reported_exn:
  assumes "snd (apply_reported ext m reported fs) \<noteq> None"
  shows "fst (apply_reported ext m reported fs) = fs"
  using assms by (simp add: apply_reported_def split: sum.splits if_splits)

lemma apply_reported_Speed:
  assumes "first_key reported \<noteq> Inr (Some ''windlevel'') \<or> m \<noteq> JStr ''report''"
  shows "Speed (fst (apply_reported ext m reported fs)) = Speed fs"
  using assms by (auto simp: apply_reported_def split: sum.splits)

lemma apply_reported_level:
  assumes "first_key reported = Inr (Some ''windlevel'')"
    and "js_get reported ''windlevel'' = JNum x"
  shows "apply_reported ext (JStr ''report'') reported fs =
         (fs\<lparr>Speed := js_ceil (js_div (js_mul x (Fin 100)) (MaxSpeed fs))\<rparr>, None)"
  using assms by (simp add: apply_reported_def)

lemma strict_ne_Fin: "strict_ne c (Fin z) = (c \<noteq> Fin z)"
  by (cases c) simp_all

text \<open>The levels of a fan with six of them, and the percents that occur below.\<close>

lemma six_levels:
  "js_ceil (js_div (js_mul (Fin 3) (Fin 100)) (Fin 6)) = Fin 50"
  "js_ceil (js_div (js_mul (Fin 6) (Fin 100)) (Fin 6)) = Fin 100"
  "js_ceil (js_div (js_mul (Fin 7) (Fin 100)) (Fin 6)) = Fin 117"
  "js_ceil (js_div (js_mul (Fin 17) (Fin 6)) (Fin 100)) = Fin 2"
  "js_ceil (js_div (js_mul (Fin 50) (Fin 6)) (Fin 100)) = Fin 3"
  "js_ceil (js_div (js_mul (Fin 0) (Fin 6)) (Fin 100)) = Fin 0"
  using ceil_quotient_exact [of 3 100 6] ceil_quotient_exact [of 6 100 6]
    ceil_quotient_exact [of 7 100 6] ceil_quotient_exact [of 17 6 100]
    ceil_quotient_exact [of 50 6 100] ceil_quotient_exact [of 0 6 100]
  by simp_all

section \<open>Properties\<close>

text \<open>
  C1. For every requested percent, \<^verbatim>\<open>setRotationSpeed\<close> leaves the raw requested value in
  the cached speed: not the level, not a percent derived from it, and whether a message
  was sent, withheld as redundant, or withheld because the level was zero.
\<close>

theorem setRotationSpeed_caches_raw_value:
  "Speed (fanState (setRotationSpeed now v this)) = v"
  by (simp add: setRotationSpeed_def Let_def send_def)

text \<open>
  C2. For a message of this device whose only reported key is \<^verbatim>\<open>windlevel\<close>, with a
  number as level: under the method \<^verbatim>\<open>report\<close> the cached speed becomes
  \<^verbatim>\<open>Math.ceil(level * 100 / MaxSpeed)\<close> as the doubles compute it, and nothing else
  changes; under \<^verbatim>\<open>control-report\<close> and \<^verbatim>\<open>control-reply\<close> the accessory is left as it
  was. For an integer level \<open>l\<close> with \<open>l * 100\<close> below \<open>2^53\<close> in magnitude and an
  integer \<open>MaxSpeed\<close> other than zero, that value is the ceiling of the quotient.
\<close>

theorem report_level_sets_speed:
  assumes "js_get data ''devicesn'' = JStr (sn this)"
    and "js_get data ''reported'' = JObj [(''windlevel'', JNum level)]"
  shows "(js_get data ''method'' = JStr ''report'' \<longrightarrow>
            on_message ext (Some data) this =
              (this\<lparr>fanState := (fanState this)
                 \<lparr>Speed := js_ceil (js_div (js_mul level (Fin 100))
                              (MaxSpeed (fanState this)))\<rparr>\<rparr>, None))
       \<and> (js_get data ''method'' = JStr ''control-report''
            \<or> js_get data ''method'' = JStr ''control-reply'' \<longrightarrow>
            on_message ext (Some data) this = (this, None))
       \<and> (level = Fin (of_int l) \<and> MaxSpeed (fanState this) = Fin (of_int m)
            \<and> \<bar>l * 100\<bar> < 2 ^ 53 \<and> m \<noteq> 0 \<and> \<bar>m\<bar> < 2 ^ 1024 \<longrightarrow>
            js_ceil (js_div (js_mul level (Fin 100)) (MaxSpeed (fanState this))) =
              Fin (of_int \<lceil>real_of_int (l * 100) / real_of_int m\<rceil>))"
proof (intro conjI impI)
  assume "js_get data ''method'' = JStr ''report''"
  with assms show "on_message ext (Some data) this =
      (this\<lparr>fanState := (fanState this)
         \<lparr>Speed := js_ceil (js_div (js_mul level (Fin 100))
                      (MaxSpeed (fanState this)))\<rparr>\<rparr>, None)"
    by (simp add: on_message_matched apply_reported_level)
next
  assume "js_get data ''method'' = JStr ''control-report''
        \<or> js_get data ''method'' = JStr ''control-reply''"
  with assms show "on_message ext (Some data) this = (this, None)"
    by (auto simp: on_message_matched apply_reported_def)
next
  assume h: "level = Fin (of_int l) \<and> MaxSpeed (fanState this) = Fin (of_int m)
            \<and> \<bar>l * 100\<bar> < 2 ^ 53 \<and> m \<noteq> 0 \<and> \<bar>m\<bar> < 2 ^ 1024"
  then have "js_ceil (js_div (js_mul (Fin (of_int l)) (Fin (of_int 100))) (Fin (of_int m))) =
      Fin (of_int \<lceil>real_of_int (l * 100) / real_of_int m\<rceil>)"
    by (intro ceil_quotient_exact) simp_all
  with h show "js_ceil (js_div (js_mul level (Fin 100)) (MaxSpeed (fanState this))) =
      Fin (of_int \<lceil>real_of_int (l * 100) / real_of_int m\<rceil>)"
    by simp
qed

theorem report_level_sets_speed_witness:
  "on_message ext_nan (Some (report_of ''SN1'' ''report'' [(''windlevel'', JNum (Fin 3))])) fan6 =
     (fan6\<lparr>fanState := (fanState fan6)\<lparr>Speed := Fin 50\<rparr>\<rparr>, None)
   \<and> on_message ext_nan
        (Some (report_of ''SN1'' ''control-reply'' [(''windlevel'', JNum (Fin 3))])) fan6 =
     (fan6, None)
   \<and> on_message ext_nan
        (Some (report_of ''SN1'' ''control-report'' [(''windlevel'', JNum (Fin 3))])) fan6 =
     (fan6, None)
   \<and> js_ceil (js_div (js_mul (Fin 3) (Fin 100)) (MaxSpeed (fanState fan6))) =
       Fin (of_int \<lceil>300 / 6 :: real\<rceil>)"
  using report_level_sets_speed
      [of "report_of ''SN1'' ''report'' [(''windlevel'', JNum (Fin 3))]" fan6 "Fin 3" ext_nan 3 6]
    report_level_sets_speed
      [of "report_of ''SN1'' ''control-reply'' [(''windlevel'', JNum (Fin 3))]" fan6 "Fin 3"
        ext_nan 3 6]
    report_level_sets_speed
      [of "report_of ''SN1'' ''control-report'' [(''windlevel'', JNum (Fin 3))]" fan6 "Fin 3"
        ext_nan 3 6]
  by (simp add: report_of_def fan6_def six_levels del: js_mul.simps js_div.simps js_ceil.simps)

text \<open>
  C3. With six levels and 17 percent cached, \<^verbatim>\<open>setRotationSpeed(50)\<close> computes the level
  \<^verbatim>\<open>Math.ceil(50 * 6 / 100) = 3\<close>, which no branch of the chain changes; exactly one
  message is sent, with \<^verbatim>\<open>poweron\<close> true and \<^verbatim>\<open>windlevel\<close> 3, and the cached speed is 50
  afterwards.
\<close>

theorem setRotationSpeed_scenario_50:
  "js_ceil (js_div (js_mul (Fin 50) (Fin 6)) (Fin 100)) = Fin 3 \<and> snap (Fin 3) = Fin 3
   \<and> setRotationSpeed now (Fin 50) fan6 =
       fan6\<lparr>fanState := (fanState fan6)\<lparr>Speed := Fin 50\<rparr>,
            ws := [\<lparr>devicesn = ''SN1'', meth = ''control'',
                    params = [(''poweron'', JBool True), (''windlevel'', JNum (Fin 3))],
                    timestamp = now\<rparr>]\<rparr>"
proof (intro conjI)
  show "js_ceil (js_div (js_mul (Fin 50) (Fin 6)) (Fin 100)) = Fin 3"
    by (rule six_levels)
  show kept: "snap (Fin 3) = Fin 3"
    by (simp add: snap_def)
  show "setRotationSpeed now (Fin 50) fan6 =
       fan6\<lparr>fanState := (fanState fan6)\<lparr>Speed := Fin 50\<rparr>,
            ws := [\<lparr>devicesn = ''SN1'', meth = ''control'',
                    params = [(''poweron'', JBool True), (''windlevel'', JNum (Fin 3))],
                    timestamp = now\<rparr>]\<rparr>"
    using kept
    by (simp add: setRotationSpeed_def fan6_def Let_def send_def six_levels
        del: js_mul.simps js_div.simps js_ceil.simps)
qed

text \<open>
  C4. \<^verbatim>\<open>handleActiveSet\<close> never writes the cache; and when the cached power is already
  the requested boolean it sends nothing, so the accessory is left exactly as it was.
\<close>

theorem handleActiveSet_no_duplicate:
  "fanState (handleActiveSet now v this) = fanState this
   \<and> (On (fanState this) = JBool (ToBoolean v) \<longrightarrow> handleActiveSet now v this = this)"
  by (simp add: handleActiveSet_def send_def)

theorem handleActiveSet_no_duplicate_witness:
  "On (fanState fan6) = JBool (ToBoolean (JBool True))
   \<and> handleActiveSet 1000 (JBool True) fan6 = fan6
   \<and> fanState (handleActiveSet 1000 (JBool False) fan6) = fanState fan6"
  using handleActiveSet_no_duplicate [of 1000 "JBool True" fan6]
    handleActiveSet_no_duplicate [of 1000 "JBool False" fan6]
  by (simp add: fan6_def)

text \<open>
  C5. \<^verbatim>\<open>setSwingMode\<close> has no check against the cache: with oscillation cached as on, a
  request to turn it on still sends a message.
\<close>

theorem setSwingMode_sends_duplicate:
  "Swing (fanState fan6) = JBool True
   \<and> ws (setSwingMode 1000 (JBool True) fan6) =
       ws fan6 @ [\<lparr>devicesn = ''SN1'', meth = ''control'',
                    params = [(''shakehorizon'', JBool True)], timestamp = 1000\<rparr>]
   \<and> fanState (setSwingMode 1000 (JBool True) fan6) = fanState fan6"
  by (simp add: setSwingMode_def send_def fan6_def)

text \<open>
  C6. \<^verbatim>\<open>setRotationSpeed\<close> sends nothing, or one message whose \<^verbatim>\<open>windlevel\<close> is not
  zero; when the level after the chain is zero it sends nothing.
\<close>

theorem setRotationSpeed_never_level_zero:
  "(ws (setRotationSpeed now v this) = ws this
    \<or> (\<exists>c. c \<noteq> Fin 0 \<and> ws (setRotationSpeed now v this) =
          ws this @ [\<lparr>devicesn = sn this, meth = ''control'',
                       params = [(''poweron'', JBool True), (''windlevel'', JNum c)],
                       timestamp = now\<rparr>]))
   \<and> (snap (js_ceil (js_div (js_mul v (MaxSpeed (fanState this))) (Fin 100))) = Fin 0 \<longrightarrow>
        ws (setRotationSpeed now v this) = ws this)"
  by (simp add: setRotationSpeed_def Let_def send_def strict_ne_Fin
      del: js_mul.simps js_div.simps js_ceil.simps)

theorem setRotationSpeed_never_level_zero_witness:
  "snap (js_ceil (js_div (js_mul (Fin 0) (MaxSpeed (fanState fan6))) (Fin 100))) = Fin 0
   \<and> ws (setRotationSpeed 1000 (Fin 0) fan6) = ws fan6
   \<and> ws (setRotationSpeed 1000 (Fin 50) fan6) =
       ws fan6 @ [\<lparr>devicesn = sn fan6, meth = ''control'',
                    params = [(''poweron'', JBool True), (''windlevel'', JNum (Fin 3))],
                    timestamp = 1000\<rparr>]"
  using setRotationSpeed_never_level_zero [of 1000 "Fin 0" fan6]
    setRotationSpeed_never_level_zero [of 1000 "Fin 50" fan6]
  by (simp add: snap_def setRotationSpeed_def fan6_def Let_def send_def six_levels
      del: js_mul.simps js_div.simps js_ceil.simps)

text \<open>
  The listener applies no clamp. With six levels, a report of level 7 for this device
  puts 117 in the cached speed, outside the range from 0 to 100. And a level equal to
  \<open>MaxSpeed\<close> can give 101: at 5920956124208825 the product with 100 is rounded up.
\<close>

theorem report_level_above_max_exceeds_100:
  "percent_range (Speed (fanState fan6))
   \<and> Speed (fanState (fst (on_message ext_nan
        (Some (report_of ''SN1'' ''report'' [(''windlevel'', JNum (Fin 7))])) fan6))) = Fin 117
   \<and> \<not> percent_range (Speed (fanState (fst (on_message ext_nan
        (Some (report_of ''SN1'' ''report'' [(''windlevel'', JNum (Fin 7))])) fan6))))
   \<and> Speed (fanState (fst (on_message ext_nan
        (Some (report_of ''SN1'' ''report'' [(''windlevel'', JNum (Fin 5920956124208825))]))
        (fan6\<lparr>fanState := (fanState fan6)\<lparr>MaxSpeed := Fin 5920956124208825\<rparr>\<rparr>)))) = Fin 101"
  by (simp add: on_message_def apply_reported_def report_of_def fan6_def percent_range_def
      six_levels rounding_beyond_2_53 del: js_mul.simps js_div.simps js_ceil.simps)

text \<open>
  C7, amended. Let \<open>MaxSpeed\<close> be a positive integer \<open>m\<close> with \<open>m * 100\<close> below \<open>2^53\<close>.
  A \<^verbatim>\<open>report\<close> for this device whose first reported key is \<^verbatim>\<open>windlevel\<close>, with an
  integer level from 0 to \<open>m\<close>, sets the cached speed to the ceiling of
  \<open>level * 100 / m\<close>, which is an integer between 0 and 100. Consequently a cached
  speed in that range stays there after any parsed message, provided that a
  \<^verbatim>\<open>windlevel\<close> standing first in it is such a level. Nothing clamps: an integer level
  above \<open>m\<close>, with \<open>level * 100\<close> below \<open>2^53\<close>, sets the cached speed to that ceiling
  too, which is then above 100.
\<close>

theorem report_level_in_range_percent_range:
  assumes "MaxSpeed (fanState this) = Fin (of_int m)" and "0 < m" and "m * 100 < 2 ^ 53"
  shows "(js_get data ''devicesn'' = JStr (sn this)
          \<and> js_get data ''method'' = JStr ''report''
          \<and> js_get data ''reported'' = JObj ((''windlevel'', JNum (Fin (of_int level))) # rest)
          \<and> 0 \<le> level \<and> level \<le> m \<longrightarrow>
          Speed (fanState (fst (on_message ext (Some data) this))) =
            Fin (of_int \<lceil>real_of_int (level * 100) / real_of_int m\<rceil>)
          \<and> percent_range (Speed (fanState (fst (on_message ext (Some data) this)))))
       \<and> (percent_range (Speed (fanState this))
          \<and> (first_key (js_get data ''reported'') = Inr (Some ''windlevel'') \<longrightarrow>
               (\<exists>l. js_get (js_get data ''reported'') ''windlevel'' = JNum (Fin (of_int l))
                    \<and> 0 \<le> l \<and> l \<le> m)) \<longrightarrow>
          percent_range (Speed (fanState (fst (on_message ext (Some data) this)))))
       \<and> (js_get data ''devicesn'' = JStr (sn this)
          \<and> js_get data ''method'' = JStr ''report''
          \<and> js_get data ''reported'' = JObj ((''windlevel'', JNum (Fin (of_int level))) # rest)
          \<and> m < level \<and> level * 100 < 2 ^ 53 \<longrightarrow>
          Speed (fanState (fst (on_message ext (Some data) this))) =
            Fin (of_int \<lceil>real_of_int (level * 100) / real_of_int m\<rceil>)
          \<and> 100 < \<lceil>real_of_int (level * 100) / real_of_int m\<rceil>
          \<and> \<not> percent_range (Speed (fanState (fst (on_message ext (Some data) this)))))"
proof -
  let ?r = "js_get data ''reported''"
  let ?S = "Speed (fanState (fst (on_message ext (Some data) this)))"
  have m: "m \<noteq> 0" "\<bar>m\<bar> < 2 ^ 1024"
  proof -
    show "m \<noteq> 0" using assms(2) by simp
    have "m < 2 ^ 53" using assms(2,3) by linarith
    also have "\<dots> < (2::int) ^ 1024" by simp
    finally show "\<bar>m\<bar> < 2 ^ 1024" using assms(2) by linarith
  qed
  have exact: "js_ceil (js_div (js_mul (Fin (of_int l)) (Fin 100)) (MaxSpeed (fanState this))) =
        Fin (of_int \<lceil>real_of_int (l * 100) / real_of_int m\<rceil>)"
    if "0 \<le> l" "l * 100 < 2 ^ 53" for l
  proof -
    from that have "\<bar>l * 100\<bar> < 2 ^ 53" by linarith
    from ceil_quotient_exact [OF this m] show ?thesis
      unfolding assms(1) by simp
  qed
  have level: "?S = Fin (of_int \<lceil>real_of_int (l * 100) / real_of_int m\<rceil>)"
    if "js_get data ''devicesn'' = JStr (sn this)" "js_get data ''method'' = JStr ''report''"
      "first_key ?r = Inr (Some ''windlevel'')" "js_get ?r ''windlevel'' = JNum (Fin (of_int l))"
      "0 \<le> l" "l * 100 < 2 ^ 53" for l
    using that(1-4) exact [OF that(5,6)]
    by (simp add: on_message_matched apply_reported_level
        del: js_mul.simps js_div.simps js_ceil.simps)
  have range: "0 \<le> \<lceil>real_of_int (l * 100) / real_of_int m\<rceil>
        \<and> \<lceil>real_of_int (l * 100) / real_of_int m\<rceil> \<le> 100"
    if "0 \<le> l" "l \<le> m" for l
  proof -
    have "real_of_int (l * 100) / real_of_int m \<le> 100"
      using that assms(2) by (simp add: divide_le_eq)
    moreover have "0 \<le> real_of_int (l * 100) / real_of_int m"
      using that assms(2) by simp
    ultimately show ?thesis
      by (simp add: ceiling_le_iff)
  qed
  have pr: "percent_range (Fin (of_int c)) = (0 \<le> c \<and> c \<le> 100)" for c :: int
    by (simp add: percent_range_def)
  have inside: "?S = Fin (of_int \<lceil>real_of_int (level * 100) / real_of_int m\<rceil>)
          \<and> percent_range ?S"
    if h: "js_get data ''devicesn'' = JStr (sn this)
          \<and> js_get data ''method'' = JStr ''report''
          \<and> js_get data ''reported'' = JObj ((''windlevel'', JNum (Fin (of_int level))) # rest)
          \<and> 0 \<le> level \<and> level \<le> m"
  proof -
    from h have k: "first_key ?r = Inr (Some ''windlevel'')"
        "js_get ?r ''windlevel'' = JNum (Fin (of_int level))"
      by simp_all
    from h assms(3) have "level * 100 < 2 ^ 53" by linarith
    with h k level [of level] have "?S = Fin (of_int \<lceil>real_of_int (level * 100) / real_of_int m\<rceil>)"
      by blast
    with h range [of level] show ?thesis by (simp only: pr)
  qed
  have kept: "percent_range ?S"
    if h: "percent_range (Speed (fanState this))
          \<and> (first_key ?r = Inr (Some ''windlevel'') \<longrightarrow>
               (\<exists>l. js_get ?r ''windlevel'' = JNum (Fin (of_int l)) \<and> 0 \<le> l \<and> l \<le> m))"
  proof (cases "js_get data ''devicesn'' = JStr (sn this)
      \<and> js_get data ''method'' = JStr ''report''
      \<and> first_key ?r = Inr (Some ''windlevel'')")
    case True
    with h obtain l where l: "js_get ?r ''windlevel'' = JNum (Fin (of_int l))" "0 \<le> l" "l \<le> m"
      by blast
    from l assms(3) have "l * 100 < 2 ^ 53" by linarith
    with True l level [of l] have "?S = Fin (of_int \<lceil>real_of_int (l * 100) / real_of_int m\<rceil>)"
      by blast
    with range [OF l(2,3)] show ?thesis by (simp only: pr)
  next
    case False
    have "?S = Speed (fanState this)"
    proof (cases "js_get data ''devicesn'' = JStr (sn this)
        \<and> (js_get data ''method'' = JStr ''control-report''
           \<or> js_get data ''method'' = JStr ''control-reply''
           \<or> js_get data ''method'' = JStr ''report'')")
      case True
      with False have "first_key ?r \<noteq> Inr (Some ''windlevel'')
          \<or> js_get data ''method'' \<noteq> JStr ''report''"
        by blast
      then show ?thesis
        using True by (simp add: on_message_matched apply_reported_Speed)
    next
      case False
      then show ?thesis
        using on_message_ignored(1) [of data this ext] by auto
    qed
    with h show ?thesis by simp
  qed
  have above: "?S = Fin (of_int \<lceil>real_of_int (level * 100) / real_of_int m\<rceil>)
          \<and> 100 < \<lceil>real_of_int (level * 100) / real_of_int m\<rceil>
          \<and> \<not> percent_range ?S"
    if h: "js_get data ''devicesn'' = JStr (sn this)
          \<and> js_get data ''method'' = JStr ''report''
          \<and> js_get data ''reported'' = JObj ((''windlevel'', JNum (Fin (of_int level))) # rest)
          \<and> m < level \<and> level * 100 < 2 ^ 53"
  proof -
    from h have k: "first_key ?r = Inr (Some ''windlevel'')"
        "js_get ?r ''windlevel'' = JNum (Fin (of_int level))"
      by simp_all
    from h assms(2) have "0 \<le> level" by linarith
    with h k level [of level] have S: "?S = Fin (of_int \<lceil>real_of_int (level * 100) / real_of_int m\<rceil>)"
      by blast
    have "100 < real_of_int (level * 100) / real_of_int m"
      using h assms(2) by (simp add: less_divide_eq)
    then have "100 < \<lceil>real_of_int (level * 100) / real_of_int m\<rceil>"
      by (simp add: less_ceiling_iff)
    with S show ?thesis by (auto simp: pr)
  qed
  from inside kept above show ?thesis by blast
qed

theorem report_level_in_range_percent_range_witness:
  "Speed (fanState (fst (on_message ext_nan
        (Some (report_of ''SN1'' ''report'' [(''windlevel'', JNum (Fin 6))])) fan6))) = Fin 100
   \<and> percent_range (Speed (fanState (fst (on_message ext_nan
        (Some (report_of ''SN1'' ''report'' [(''windlevel'', JNum (Fin 6))])) fan6))))
   \<and> percent_range (Speed (fanState fan6))
   \<and> percent_range (Speed (fanState (fst (on_message ext_nan
        (Some (report_of ''SN1'' ''control-reply'' [(''poweron'', JBool False)])) fan6))))
   \<and> Speed (fanState (fst (on_message ext_nan
        (Some (report_of ''SN1'' ''report'' [(''windlevel'', JNum (Fin 7))])) fan6))) = Fin 117"
  using report_level_in_range_percent_range
      [of fan6 6 "report_of ''SN1'' ''report'' [(''windlevel'', JNum (Fin 6))]" 6 "[]" ext_nan]
    report_level_in_range_percent_range
      [of fan6 6 "report_of ''SN1'' ''control-reply'' [(''poweron'', JBool False)]" 0 "[]" ext_nan]
    report_level_in_range_percent_range
      [of fan6 6 "report_of ''SN1'' ''report'' [(''windlevel'', JNum (Fin 7))]" 7 "[]" ext_nan]
  by (simp add: report_of_def fan6_def percent_range_def)

text \<open>
  C8. A parsed message whose \<^verbatim>\<open>devicesn\<close> is not the serial of this device leaves the
  accessory, and so every field of its cache, as it was, whatever its method and its
  reported keys.
\<close>

theorem other_serial_no_change:
  assumes "js_get data ''devicesn'' \<noteq> JStr (sn this)"
  shows "fst (on_message ext (Some data) this) = this"
proof (cases "nullish data")
  case True
  then show ?thesis by (simp add: on_message_def)
next
  case False
  with assms show ?thesis by (simp add: on_message_def)
qed

theorem other_serial_no_change_witness:
  "js_get (report_of ''SN2'' ''report'' [(''poweron'', JBool False)]) ''devicesn'' \<noteq> JStr (sn fan6)
   \<and> fst (on_message ext_nan
        (Some (report_of ''SN2'' ''report'' [(''poweron'', JBool False)])) fan6) = fan6"
  using other_serial_no_change
      [of "report_of ''SN2'' ''report'' [(''poweron'', JBool False)]" fan6 ext_nan]
  by (simp add: report_of_def fan6_def)

text \<open>
  The listener catches nothing. A payload that does not parse leaves it with a
  \<^verbatim>\<open>SyntaxError\<close>; the payload \<^verbatim>\<open>null\<close>, and a report for this device without
  \<^verbatim>\<open>reported\<close>, leave it with a \<^verbatim>\<open>TypeError\<close>.
\<close>

theorem malformed_message_throws:
  "snd (on_message ext_nan None fan6) = Some SyntaxError
   \<and> snd (on_message ext_nan (Some JNull) fan6) = Some TypeError
   \<and> snd (on_message ext_nan
        (Some (JObj [(''devicesn'', JStr ''SN1''), (''method'', JStr ''report'')])) fan6) =
       Some TypeError"
  by (simp add: on_message_def apply_reported_def fan6_def)

text \<open>
  C9, amended. A payload that does not parse raises \<^verbatim>\<open>SyntaxError\<close>; a payload that
  parses to \<^verbatim>\<open>null\<close>, and a message of this device with a recognised method whose
  \<^verbatim>\<open>reported\<close> is missing or \<^verbatim>\<open>null\<close>, raise \<^verbatim>\<open>TypeError\<close>: each to the caller of the
  listener. Whenever the listener raises, the accessory and its cache are as they were.
  A parsed message other than \<^verbatim>\<open>null\<close> that lacks the serial of this device or a
  recognised method is dropped without an exception.
\<close>

theorem malformed_message_keeps_cache:
  "on_message ext None this = (this, Some SyntaxError)
   \<and> (nullish data \<longrightarrow> on_message ext (Some data) this = (this, Some TypeError))
   \<and> (js_get data ''devicesn'' = JStr (sn this)
        \<and> (js_get data ''method'' = JStr ''control-report''
           \<or> js_get data ''method'' = JStr ''control-reply''
           \<or> js_get data ''method'' = JStr ''report'')
        \<and> nullish (js_get data ''reported'') \<longrightarrow>
        on_message ext (Some data) this = (this, Some TypeError))
   \<and> (snd (on_message ext payload this) \<noteq> None \<longrightarrow>
        fst (on_message ext payload this) = this)
   \<and> (\<not> nullish data
        \<and> (js_get data ''devicesn'' = JUndefined \<or> js_get data ''method'' = JUndefined) \<longrightarrow>
        on_message ext (Some data) this = (this, None))"
proof (intro conjI impI)
  show "on_message ext None this = (this, Some SyntaxError)"
    by (simp add: on_message_def)
  show "on_message ext (Some data) this = (this, Some TypeError)" if "nullish data"
    using that by (simp add: on_message_def)
  show "on_message ext (Some data) this = (this, Some TypeError)"
    if h: "js_get data ''devicesn'' = JStr (sn this)
        \<and> (js_get data ''method'' = JStr ''control-report''
           \<or> js_get data ''method'' = JStr ''control-reply''
           \<or> js_get data ''method'' = JStr ''report'')
        \<and> nullish (js_get data ''reported'')"
  proof -
    from h have "first_key (js_get data ''reported'') = Inl TypeError"
      by (cases "js_get data ''reported''") simp_all
    with h show ?thesis
      by (simp add: on_message_matched apply_reported_def)
  qed
  show "fst (on_message ext payload this) = this"
    if exn: "snd (on_message ext payload this) \<noteq> None"
  proof (cases payload)
    case None
    then show ?thesis by (simp add: on_message_def)
  next
    case (Some d)
    show ?thesis
    proof (cases "js_get d ''devicesn'' = JStr (sn this)
        \<and> (js_get d ''method'' = JStr ''control-report''
           \<or> js_get d ''method'' = JStr ''control-reply''
           \<or> js_get d ''method'' = JStr ''report'')")
      case False
      then show ?thesis
        using Some on_message_ignored(1) [of d this ext] by blast
    next
      case True
      with exn Some show ?thesis
        by (simp add: on_message_matched apply_reported_exn)
    qed
  qed
  show "on_message ext (Some data) this = (this, None)"
    if "\<not> nullish data
        \<and> (js_get data ''devicesn'' = JUndefined \<or> js_get data ''method'' = JUndefined)"
    using that on_message_ignored(2) [of data this ext] by auto
qed

theorem malformed_message_keeps_cache_witness:
  "on_message ext_nan None fan6 = (fan6, Some SyntaxError)
   \<and> nullish JNull
   \<and> on_message ext_nan (Some JNull) fan6 = (fan6, Some TypeError)
   \<and> nullish (js_get (JObj [(''devicesn'', JStr ''SN1''), (''method'', JStr ''report'')])
        ''reported'')
   \<and> on_message ext_nan
        (Some (JObj [(''devicesn'', JStr ''SN1''), (''method'', JStr ''report'')])) fan6 =
       (fan6, Some TypeError)
   \<and> js_get (JObj [(''devicesn'', JStr ''SN1'')]) ''method'' = JUndefined
   \<and> on_message ext_nan (Some (JObj [(''devicesn'', JStr ''SN1'')])) fan6 = (fan6, None)"
  using malformed_message_keeps_cache [of ext_nan fan6 JNull None]
    malformed_message_keeps_cache
      [of ext_nan fan6 "JObj [(''devicesn'', JStr ''SN1''), (''method'', JStr ''report'')]" None]
    malformed_message_keeps_cache [of ext_nan fan6 "JObj [(''devicesn'', JStr ''SN1'')]" None]
  by (simp add: fan6_def)

text \<open>
  C10. For a message of this device with a recognised method whose \<^verbatim>\<open>reported\<close> has
  several keys, the listener does what it does for the message that carries the first
  key alone. The field that the first key names is applied: \<^verbatim>\<open>poweron\<close> and
  \<^verbatim>\<open>shakehorizon\<close> store their value under every recognised method, \<^verbatim>\<open>windlevel\<close> stores
  the percent under \<^verbatim>\<open>report\<close> and nothing otherwise. A field of the cache that the
  first key does not name is left as it was, even when a later key names it.
\<close>

theorem only_first_key_applied:
  assumes "js_get data ''devicesn'' = JStr (sn this)"
    and "js_get data ''method'' = JStr m"
    and "m = ''control-report'' \<or> m = ''control-reply'' \<or> m = ''report''"
    and "js_get data ''reported'' = JObj ((k, v) # rest)"
  shows "on_message ext (Some data) this =
           on_message ext (Some (report_of (sn this) m [(k, v)])) this
       \<and> (k = ''poweron'' \<longrightarrow>
            on_message ext (Some data) this =
              (this\<lparr>fanState := (fanState this)\<lparr>On := v\<rparr>\<rparr>, None))
       \<and> (k = ''shakehorizon'' \<longrightarrow>
            on_message ext (Some data) this =
              (this\<lparr>fanState := (fanState this)\<lparr>Swing := v\<rparr>\<rparr>, None))
       \<and> (k = ''windlevel'' \<and> m = ''report'' \<and> ToNumber ext v = Inr x \<longrightarrow>
            on_message ext (Some data) this =
              (this\<lparr>fanState := (fanState this)
                 \<lparr>Speed := js_ceil (js_div (js_mul x (Fin 100))
                              (MaxSpeed (fanState this)))\<rparr>\<rparr>, None))
       \<and> (k = ''windlevel'' \<and> m \<noteq> ''report'' \<longrightarrow>
            on_message ext (Some data) this = (this, None))
       \<and> (k \<noteq> ''poweron'' \<longrightarrow>
            On (fanState (fst (on_message ext (Some data) this))) = On (fanState this))
       \<and> (k \<noteq> ''windlevel'' \<longrightarrow>
            Speed (fanState (fst (on_message ext (Some data) this))) = Speed (fanState this))
       \<and> (k \<noteq> ''shakehorizon'' \<longrightarrow>
            Swing (fanState (fst (on_message ext (Some data) this))) = Swing (fanState this))"
proof -
  have m: "js_get data ''method'' = JStr ''control-report''
         \<or> js_get data ''method'' = JStr ''control-reply''
         \<or> js_get data ''method'' = JStr ''report''"
    using assms(2,3) by auto
  have same: "apply_reported ext (JStr m) (JObj ((k, v) # rest)) fs =
        apply_reported ext (JStr m) (JObj [(k, v)]) fs" for fs
    by (simp add: apply_reported_def)
  have single: "on_message ext (Some (report_of (sn this) m [(k, v)])) this =
        (this\<lparr>fanState := fst (apply_reported ext (JStr m) (JObj [(k, v)]) (fanState this))\<rparr>,
         snd (apply_reported ext (JStr m) (JObj [(k, v)]) (fanState this)))"
    using assms(3) by (subst on_message_matched) (auto simp: report_of_def)
  have whole: "on_message ext (Some data) this =
        (this\<lparr>fanState := fst (apply_reported ext (JStr m) (JObj ((k, v) # rest)) (fanState this))\<rparr>,
         snd (apply_reported ext (JStr m) (JObj ((k, v) # rest)) (fanState this)))"
    using on_message_matched [OF assms(1) m] assms(2,4) by simp
  have power: "apply_reported ext mm (JObj ((k, v) # rest)) fs = (fs\<lparr>On := v\<rparr>, None)"
    if "k = ''poweron''" for mm fs
    using that by (simp add: apply_reported_def)
  have swing: "apply_reported ext mm (JObj ((k, v) # rest)) fs = (fs\<lparr>Swing := v\<rparr>, None)"
    if "k = ''shakehorizon''" for mm fs
    using that by (simp add: apply_reported_def)
  have wind: "apply_reported ext (JStr m) (JObj ((k, v) # rest)) fs =
        (fs\<lparr>Speed := js_ceil (js_div (js_mul x (Fin 100)) (MaxSpeed fs))\<rparr>, None)"
    if "k = ''windlevel'' \<and> m = ''report'' \<and> ToNumber ext v = Inr x" for fs
    using that by (simp add: apply_reported_def)
  have echo: "apply_reported ext (JStr m) (JObj ((k, v) # rest)) fs = (fs, None)"
    if "k = ''windlevel'' \<and> m \<noteq> ''report''" for fs
    using that by (simp add: apply_reported_def)
  have applied:
    "(k = ''poweron'' \<longrightarrow>
        on_message ext (Some data) this =
          (this\<lparr>fanState := (fanState this)\<lparr>On := v\<rparr>\<rparr>, None))
     \<and> (k = ''shakehorizon'' \<longrightarrow>
        on_message ext (Some data) this =
          (this\<lparr>fanState := (fanState this)\<lparr>Swing := v\<rparr>\<rparr>, None))
     \<and> (k = ''windlevel'' \<and> m = ''report'' \<and> ToNumber ext v = Inr x \<longrightarrow>
        on_message ext (Some data) this =
          (this\<lparr>fanState := (fanState this)
             \<lparr>Speed := js_ceil (js_div (js_mul x (Fin 100))
                          (MaxSpeed (fanState this)))\<rparr>\<rparr>, None))
     \<and> (k = ''windlevel'' \<and> m \<noteq> ''report'' \<longrightarrow>
        on_message ext (Some data) this = (this, None))"
    using power swing wind echo by (simp add: whole)
  have "On (fst (apply_reported ext mm (JObj ((k, v) # rest)) fs)) = On fs"
    if "k \<noteq> ''poweron''" for mm fs
    using that by (simp add: apply_reported_def split: sum.splits)
  moreover have "Speed (fst (apply_reported ext mm (JObj ((k, v) # rest)) fs)) = Speed fs"
    if "k \<noteq> ''windlevel''" for mm fs
    using that by (simp add: apply_reported_def split: sum.splits)
  moreover have "Swing (fst (apply_reported ext mm (JObj ((k, v) # rest)) fs)) = Swing fs"
    if "k \<noteq> ''shakehorizon''" for mm fs
    using that by (simp add: apply_reported_def split: sum.splits)
  ultimately have frame:
    "(k \<noteq> ''poweron'' \<longrightarrow>
        On (fanState (fst (on_message ext (Some data) this))) = On (fanState this))
     \<and> (k \<noteq> ''windlevel'' \<longrightarrow>
        Speed (fanState (fst (on_message ext (Some data) this))) = Speed (fanState this))
     \<and> (k \<noteq> ''shakehorizon'' \<longrightarrow>
        Swing (fanState (fst (on_message ext (Some data) this))) = Swing (fanState this))"
    by (simp add: whole)
  have "on_message ext (Some data) this =
        on_message ext (Some (report_of (sn this) m [(k, v)])) this"
    by (simp only: single whole same)
  with applied frame show ?thesis by blast
qed

theorem only_first_key_applied_witness:
  "on_message ext_nan (Some (report_of ''SN1'' ''report''
        [(''windlevel'', JNum (Fin 3)), (''poweron'', JBool False),
         (''shakehorizon'', JBool False)])) fan6 =
     (fan6\<lparr>fanState := (fanState fan6)\<lparr>Speed := Fin 50\<rparr>\<rparr>, None)
   \<and> on_message ext_nan (Some (report_of ''SN1'' ''control-reply''
        [(''poweron'', JBool False), (''windlevel'', JNum (Fin 3))])) fan6 =
     (fan6\<lparr>fanState := (fanState fan6)\<lparr>On := JBool False\<rparr>\<rparr>, None)
   \<and> on_message ext_nan (Some (report_of ''SN1'' ''control-report''
        [(''shakehorizon'', JBool False), (''poweron'', JBool False)])) fan6 =
     (fan6\<lparr>fanState := (fanState fan6)\<lparr>Swing := JBool False\<rparr>\<rparr>, None)
   \<and> on_message ext_nan (Some (report_of ''SN1'' ''control-reply''
        [(''windlevel'', JNum (Fin 3)), (''poweron'', JBool False)])) fan6 = (fan6, None)"
  using only_first_key_applied [of "report_of ''SN1'' ''report''
        [(''windlevel'', JNum (Fin 3)), (''poweron'', JBool False),
         (''shakehorizon'', JBool False)]"
      fan6 "''report''" "''windlevel''" "JNum (Fin 3)"
      "[(''poweron'', JBool False), (''shakehorizon'', JBool False)]" ext_nan "Fin 3"]
    only_first_key_applied [of "report_of ''SN1'' ''control-reply''
        [(''poweron'', JBool False), (''windlevel'', JNum (Fin 3))]"
      fan6 "''control-reply''" "''poweron''" "JBool False" "[(''windlevel'', JNum (Fin 3))]"
      ext_nan "Fin 3"]
    only_first_key_applied [of "report_of ''SN1'' ''control-report''
        [(''shakehorizon'', JBool False), (''poweron'', JBool False)]"
      fan6 "''control-report''" "''shakehorizon''" "JBool False" "[(''poweron'', JBool False)]"
      ext_nan "Fin 3"]
    only_first_key_applied [of "report_of ''SN1'' ''control-reply''
        [(''windlevel'', JNum (Fin 3)), (''poweron'', JBool False)]"
      fan6 "''control-reply''" "''windlevel''" "JNum (Fin 3)" "[(''poweron'', JBool False)]"
      ext_nan "Fin 3"]
  by (simp add: report_of_def fan6_def on_message_def apply_reported_def six_levels
      del: js_mul.simps js_div.simps js_ceil.simps)

end
